theory Spec2Isabelle
  imports Complex_Main
begin

section \<open>Latency percentiles (\<^verbatim>\<open>StressTester._percentile\<close>)\<close>

text \<open>
  The source, on the list \<^verbatim>\<open>self.latencies\<close>:
  \<^verbatim>\<open>
  def _percentile(self, percentile):
      if not self.latencies:
          return 0.0
      sorted_latencies = sorted(self.latencies)
      index = int(len(sorted_latencies) * percentile / 100)
      return sorted_latencies[index] if index < len(sorted_latencies) else sorted_latencies[-1]
  \<close>
  Latencies are differences of clock readings; they are modelled as reals, of which only
  the order matters here. The report calls the function with the integers 50, 90 and 99,
  so \<open>percentile\<close> is a natural number and \<^verbatim>\<open>int(n * p / 100)\<close> is the truncated
  quotient \<open>n * p div 100\<close> (Python's true division of two integers is correctly rounded,
  and a quotient with denominator 100 is at least 1/100 away from the next integer, so the
  truncation of the float agrees with the exact one for every list that fits in memory).
\<close>

definition percentile :: "real list \<Rightarrow> nat \<Rightarrow> real" where
  "percentile latencies p =
     (if latencies = [] then 0
      else
        let sorted_latencies = sort latencies;
            index = length sorted_latencies * p div 100
        in if index < length sorted_latencies then sorted_latencies ! index
           else last sorted_latencies)"

text \<open>
  The specification's wording of the same function: sort ascending, take the index
  \<open>floor (count * p / 100)\<close> clamped to \<open>count - 1\<close>, return the value there; 0 on
  no latencies.
\<close>

definition percentile_spec :: "real list \<Rightarrow> nat \<Rightarrow> real" where
  "percentile_spec latencies p =
     (if latencies = [] then 0
      else sort latencies ! min (length latencies * p div 100) (length latencies - 1))"

section \<open>Transport results and exceptions\<close>

text \<open>
  What one HTTP request can end in. A request either yields a response with a status
  code, or raises. The exception classes the source tells apart:
  \<^item> \<^verbatim>\<open>asyncio.TimeoutError\<close>;
  \<^item> \<^verbatim>\<open>aiohttp.ClientConnectorError\<close>, a subclass of \<^verbatim>\<open>aiohttp.ClientError\<close>;
  \<^item> any other \<^verbatim>\<open>aiohttp.ClientError\<close>;
  \<^item> any other subclass of \<^verbatim>\<open>Exception\<close>.
  The string is \<^verbatim>\<open>str(e)\<close>. Exceptions outside \<^verbatim>\<open>Exception\<close> (task cancellation,
  a keyboard interrupt) are not results of the transport and are not modelled.
\<close>

datatype exn =
    TimeoutError
  | ClientConnectorError string
  | ClientError string
  | OtherException string

datatype transport_result = Response int | Raises exn

fun is_client_error :: "exn \<Rightarrow> bool" where
  "is_client_error TimeoutError = False"
| "is_client_error (ClientConnectorError d) = True"
| "is_client_error (ClientError d) = True"
| "is_client_error (OtherException d) = False"

fun str :: "exn \<Rightarrow> string" where
  "str TimeoutError = []"
| "str (ClientConnectorError d) = d"
| "str (ClientError d) = d"
| "str (OtherException d) = d"

datatype py_error = ValueError | ZeroDivisionError

record request =
  rq_method :: string
  rq_url :: string
  rq_headers :: "(string \<times> string) list"
  rq_data :: "string option"
  rq_timeout :: int
  rq_proxy :: "string option"

section \<open>Counters (\<^verbatim>\<open>defaultdict(int)\<close>)\<close>

text \<open>
  A \<^verbatim>\<open>defaultdict(int)\<close> is an insertion-ordered dictionary whose missing keys read
  as 0: an association list with distinct keys. \<^verbatim>\<open>d[k] += 1\<close> increments the entry of
  \<open>k\<close>, or appends the entry \<open>(k, 1)\<close>; \<^verbatim>\<open>sum(d.values())\<close> adds the counts.
\<close>

fun incr :: "'k \<Rightarrow> ('k \<times> int) list \<Rightarrow> ('k \<times> int) list" where
  "incr k [] = [(k, 1)]"
| "incr k ((k', c) # d) = (if k = k' then (k', c + 1) # d else (k', c) # incr k d)"

fun count_of :: "('k \<times> int) list \<Rightarrow> 'k \<Rightarrow> int" where
  "count_of [] k = 0"
| "count_of ((k', c) # d) k = (if k = k' then c else count_of d k)"

definition sum_values :: "('k \<times> int) list \<Rightarrow> int" where
  "sum_values d = sum_list (map snd d)"

section \<open>The tester (\<^verbatim>\<open>class StressTester\<close>)\<close>

text \<open>
  The fields of the object, under the source's names; \<^verbatim>\<open>self.method\<close> is
  \<open>http_method\<close>, and the two dictionaries of \<^verbatim>\<open>self.stats\<close> are the fields
  \<open>status_codes\<close> and \<open>errors\<close>.
\<close>

record tester =
  url :: string
  total_requests :: int
  concurrency :: int
  timeout :: int
  http_method :: string
  data :: string
  proxies :: "string list"
  validate_proxies :: bool
  status_codes :: "(int \<times> int) list"
  errors :: "(string \<times> int) list"
  latencies :: "real list"

text \<open>\<^verbatim>\<open>str.upper\<close> on ASCII letters.\<close>

definition upper_char :: "char \<Rightarrow> char" where
  "upper_char c =
     (if 97 \<le> (of_char c :: nat) \<and> (of_char c :: nat) \<le> 122
      then char_of ((of_char c :: nat) - 32) else c)"

definition upper :: "string \<Rightarrow> string" where
  "upper s = map upper_char s"

text \<open>\<^verbatim>\<open>StressTester.__init__\<close>: the configuration, and empty statistics.\<close>

definition StressTester ::
  "string \<Rightarrow> int \<Rightarrow> int \<Rightarrow> int \<Rightarrow> string \<Rightarrow> string \<Rightarrow> string list \<Rightarrow> bool \<Rightarrow> tester" where
  "StressTester u n c tmo m d ps v =
     \<lparr>url = u, total_requests = n, concurrency = c, timeout = tmo,
      http_method = upper m, data = d, proxies = ps, validate_proxies = v,
      status_codes = [], errors = [], latencies = []\<rparr>"

section \<open>Proxy validation\<close>

text \<open>
  A session hands requests to the transport; \<open>net k\<close> is what the \<open>k\<close>-th request
  issued on the session ends in, and \<open>sent\<close> lists the requests issued so far.
\<close>

definition session_request ::
  "(nat \<Rightarrow> transport_result) \<Rightarrow> request \<Rightarrow> request list \<Rightarrow> transport_result \<times> request list" where
  "session_request net rq sent = (net (length sent), sent @ [rq])"

definition test_url :: string where
  "test_url = ''http://httpbin.org/ip''"

text \<open>
  \<^verbatim>\<open>
  async def validate_proxy(self, session, proxy):
      test_url = "http://httpbin.org/ip"
      try:
          async with session.get(test_url, proxy=proxy, timeout=10) as response:
              if response.status == 200: ... return True
              else: ... return False
      except Exception as e: ... return False
  \<close>
\<close>

definition probe_request :: "string \<Rightarrow> request" where
  "probe_request proxy =
     \<lparr>rq_method = ''GET'', rq_url = test_url, rq_headers = [], rq_data = None,
      rq_timeout = 10, rq_proxy = Some proxy\<rparr>"

definition validate_proxy ::
  "(nat \<Rightarrow> transport_result) \<Rightarrow> string \<Rightarrow> request list \<Rightarrow> bool \<times> request list" where
  "validate_proxy net proxy sent =
     (case session_request net (probe_request proxy) sent of
        (Response status, sent') \<Rightarrow> (if status = 200 then (True, sent') else (False, sent'))
      | (Raises e, sent') \<Rightarrow> (False, sent'))"

text \<open>
  \<^verbatim>\<open>asyncio.gather\<close> over the probes: the coroutines start in list order, each issues
  its request and suspends, and the results come back in list order.
\<close>

fun gather_validate ::
  "(nat \<Rightarrow> transport_result) \<Rightarrow> string list \<Rightarrow> request list \<Rightarrow> bool list \<times> request list" where
  "gather_validate net [] sent = ([], sent)"
| "gather_validate net (proxy # ps) sent =
     (case validate_proxy net proxy sent of
        (is_valid, sent') \<Rightarrow>
          (case gather_validate net ps sent' of (results, sent'') \<Rightarrow> (is_valid # results, sent'')))"

text \<open>
  \<^verbatim>\<open>
  async def validate_proxies_async(self):
      valid_proxies = []
      async with ClientSession(connector=connector) as session:
          tasks = [self.validate_proxy(session, proxy) for proxy in self.proxies]
          results = await asyncio.gather(*tasks)
          for proxy, is_valid in zip(self.proxies, results):
              if is_valid:
                  valid_proxies.append(proxy)
      self.proxies = valid_proxies
      ...
      return valid_proxies
  \<close>
  The session is a fresh one: its list of requests sent starts empty. The model returns the list, the
  updated tester and the requests the session issued.
\<close>

definition validate_proxies_async ::
  "(nat \<Rightarrow> transport_result) \<Rightarrow> tester \<Rightarrow> string list \<times> tester \<times> request list" where
  "validate_proxies_async net t =
     (case gather_validate net (proxies t) [] of
        (results, sent) \<Rightarrow>
          (let valid_proxies = map fst (filter snd (zip (proxies t) results))
           in (valid_proxies, t\<lparr>proxies := valid_proxies\<rparr>, sent)))"

section \<open>One request (\<^verbatim>\<open>StressTester.send_request\<close>)\<close>

definition USER_AGENTS :: "string list" where
  "USER_AGENTS =
     [''Mozilla/5.0 (Windows NT 10.0; Win64; x64) AppleWebKit/537.36 (KHTML, like Gecko) Chrome/91.0.4472.124 Safari/537.36'',
      ''Mozilla/5.0 (Macintosh; Intel Mac OS X 10_15_7) AppleWebKit/537.36 (KHTML, like Gecko) Chrome/91.0.4472.124 Safari/537.36'',
      ''Mozilla/5.0 (X11; Linux x86_64) AppleWebKit/537.36 (KHTML, like Gecko) Chrome/91.0.4472.124 Safari/537.36'',
      ''Mozilla/5.0 (iPhone; CPU iPhone OS 14_6 like Mac OS X) AppleWebKit/605.1.15 (KHTML, like Gecko) Version/14.0 Safari/605.1.15'']"

text \<open>
  \<^verbatim>\<open>random.choice\<close> on a non-empty list; the random draw is an input of the model.
\<close>

definition random_choice :: "'a list \<Rightarrow> nat \<Rightarrow> 'a" where
  "random_choice xs draw = xs ! (draw mod length xs)"

text \<open>
  The request that one call of the function issues:
  \<^verbatim>\<open>
  headers = {"User-Agent": random.choice(USER_AGENTS)}
  proxy = random.choice(self.proxies) if self.proxies else None
  proxy_url = proxy if proxy else None
  start_time = time.time()
  ... session.request(self.method, self.url, headers=headers,
          data=self.data if self.method == "POST" else None,
          timeout=self.timeout, proxy=proxy_url)
  \<close>
\<close>

definition build_request :: "tester \<Rightarrow> nat \<Rightarrow> nat \<Rightarrow> request" where
  "build_request t ua_draw proxy_draw =
     (let headers = [(''User-Agent'', random_choice USER_AGENTS ua_draw)];
          proxy = (if proxies t \<noteq> [] then Some (random_choice (proxies t) proxy_draw) else None);
          proxy_url = (case proxy of None \<Rightarrow> None | Some p \<Rightarrow> if p \<noteq> [] then Some p else None)
      in \<lparr>rq_method = http_method t, rq_url = url t, rq_headers = headers,
          rq_data = (if http_method t = ''POST'' then Some (data t) else None),
          rq_timeout = timeout t, rq_proxy = proxy_url\<rparr>)"

text \<open>
  What the function does with the result of its request, given the clock readings at
  the start of the request and at its end:
  \<^verbatim>\<open>
          ) as response:
              latency = time.time() - start_time
              async with self.lock:
                  self.latencies.append(latency)
                  self.stats['status_codes'][response.status] += 1
      except asyncio.TimeoutError:
          async with self.lock:
              self.stats['errors']['Timeout'] += 1
      except ClientConnectorError as e:
          async with self.lock:
              self.stats['errors'][str(e)] += 1
      except Exception as e:
          async with self.lock:
              self.stats['errors'][str(e)] += 1
  \<close>
  The first component of the result is the exception that leaves the function, if any.
  The handlers are tried in the source's order; the last one takes every exception that
  reaches it.
\<close>

definition record_result ::
  "tester \<Rightarrow> real \<Rightarrow> real \<Rightarrow> transport_result \<Rightarrow> exn option \<times> tester" where
  "record_result t start_time end_time r =
     (case r of
        Response status \<Rightarrow>
          (None, t\<lparr>latencies := latencies t @ [end_time - start_time],
                    status_codes := incr status (status_codes t)\<rparr>)
      | Raises e \<Rightarrow>
          (case e of
             TimeoutError \<Rightarrow> (None, t\<lparr>errors := incr ''Timeout'' (errors t)\<rparr>)
           | ClientConnectorError d \<Rightarrow> (None, t\<lparr>errors := incr (str e) (errors t)\<rparr>)
           | _ \<Rightarrow> (None, t\<lparr>errors := incr (str e) (errors t)\<rparr>)))"

text \<open>
  One task seen alone. The world holds the clock, the requests issued and the backoff
  sleeps made; the environment of one try gives the two random draws, the time the
  request takes and what it ends in.
\<close>

record world =
  clock :: real
  issued :: "request list"
  slept :: "real list"

record try_env =
  ua_draw :: nat
  proxy_draw :: nat
  elapsed :: real
  outcome :: transport_result

text \<open>One call of the undecorated function.\<close>

definition send_request_body ::
  "try_env \<Rightarrow> tester \<times> world \<Rightarrow> exn option \<times> tester \<times> world" where
  "send_request_body e tw =
     (case tw of (t, w) \<Rightarrow>
        (let rq = build_request t (ua_draw e) (proxy_draw e);
             start_time = clock w;
             w' = w\<lparr>clock := clock w + elapsed e, issued := issued w @ [rq]\<rparr>
         in case record_result t start_time (clock w') (outcome e) of
              (ex, t') \<Rightarrow> (ex, t', w')))"

text \<open>
  The decorator:
  \<^verbatim>\<open>
  @retry(stop=stop_after_attempt(3), wait=wait_exponential(multiplier=1, min=2, max=10),
         retry=retry_if_exception_type(aiohttp.ClientError))
  \<close>
  After a call numbered \<open>n\<close> (from 1): a normal return is returned; an exception that
  is not a \<^verbatim>\<open>ClientError\<close> is raised again; otherwise, when \<open>n\<close> has reached 3 the
  decorator raises \<^verbatim>\<open>RetryError\<close>, and else it sleeps \<open>wait n\<close> seconds and calls
  the function again. The wait strategy is a parameter of the model: a function from the
  number of the failed call to the seconds to sleep.
\<close>

datatype decision = Return | Reraise exn | GiveUp | RetryAfter real

definition stop_after_attempt :: "nat \<Rightarrow> nat \<Rightarrow> bool" where
  "stop_after_attempt max_attempt_number attempt_number = (max_attempt_number \<le> attempt_number)"

definition retry_decision :: "(nat \<Rightarrow> real) \<Rightarrow> nat \<Rightarrow> exn option \<Rightarrow> decision" where
  "retry_decision wait n ex =
     (case ex of
        None \<Rightarrow> Return
      | Some e \<Rightarrow>
          if \<not> is_client_error e then Reraise e
          else if stop_after_attempt 3 n then GiveUp
          else RetryAfter (wait n))"

datatype task_result = Returned | Propagated exn | RetryError

lemma retry_after_below_stop:
  "retry_decision wait n ex = RetryAfter d \<Longrightarrow> n < 3"
  by (auto simp: retry_decision_def stop_after_attempt_def split: option.splits if_splits)

function send_request_from ::
  "(nat \<Rightarrow> real) \<Rightarrow> (nat \<Rightarrow> try_env) \<Rightarrow> nat \<Rightarrow> tester \<times> world \<Rightarrow> task_result \<times> tester \<times> world" where
  "send_request_from wait env n tw =
     (case send_request_body (env n) tw of
        (ex, t', w') \<Rightarrow>
          (case retry_decision wait n ex of
             Return \<Rightarrow> (Returned, t', w')
           | Reraise e \<Rightarrow> (Propagated e, t', w')
           | GiveUp \<Rightarrow> (RetryError, t', w')
           | RetryAfter d \<Rightarrow>
               send_request_from wait env (Suc n)
                 (t', w'\<lparr>clock := clock w' + d, slept := slept w' @ [d]\<rparr>)))"
  by pat_completeness auto
termination
  by (relation "measure (\<lambda>(wait, env, n, tw). 3 - n)")
     (auto dest: retry_after_below_stop)

declare send_request_from.simps [simp del]

text \<open>The decorated function: the calls are numbered from 1.\<close>

definition send_request ::
  "(nat \<Rightarrow> real) \<Rightarrow> (nat \<Rightarrow> try_env) \<Rightarrow> tester \<times> world \<Rightarrow> task_result \<times> tester \<times> world" where
  "send_request wait env tw = send_request_from wait env 1 tw"

section \<open>The dispatch (\<^verbatim>\<open>StressTester.run\<close>)\<close>

text \<open>
  \<^verbatim>\<open>
  async def run(self):
      connector = aiohttp.TCPConnector(limit=self.concurrency)
      async with ClientSession(connector=connector) as session:
          if self.validate_proxies and self.proxies:
              await self.validate_proxies_async()
          tasks = []
          sem = asyncio.Semaphore(self.concurrency)
          async def sem_task():
              async with sem:
                  await self.send_request(session)
          for _ in range(self.total_requests):
              tasks.append(asyncio.create_task(sem_task()))
          await asyncio.gather(*tasks, return_exceptions=True)
  \<close>
  The tasks run on one event loop and are interleaved at their suspension points only:
  a run is a sequence of events, each an atomic step on the state. The state counts the
  tasks created and still outside \<^verbatim>\<open>async with sem\<close> (\<open>pending\<close>), lists the tasks
  inside it (\<open>in_flight\<close>), and holds the value of the semaphore, the clock, the shared
  tester, the requests issued and the results that \<^verbatim>\<open>gather\<close> collects. A task inside
  the semaphore either waits for the result of its request (with the number of the call
  and its \<^verbatim>\<open>start_time\<close>), or sleeps between two calls (with the number of the next
  call and the time at which the sleep ends).
\<close>

datatype task = Requesting nat real | Backoff nat real

record run_state =
  stats :: tester
  pending :: nat
  in_flight :: "task list"
  sem :: nat
  now :: real
  probes :: "request list"
  requests :: "request list"
  results :: "task_result list"

text \<open>
  The events:
  \<^item> \<open>Admit ua px\<close>: a pending task acquires the semaphore (its value is positive),
    enters \<^verbatim>\<open>send_request\<close> and issues its first request, with the two random draws;
  \<^item> \<open>Tick d\<close>: the clock advances by \<open>d \<ge> 0\<close>;
  \<^item> \<open>Deliver i r\<close>: the request of the \<open>i\<close>-th task in flight ends in \<open>r\<close>; the
    function records it, and the decorator decides: the task leaves the semaphore, or it
    starts a backoff sleep;
  \<^item> \<open>Wake i ua px\<close>: the backoff sleep of the \<open>i\<close>-th task in flight is over and it
    issues the request of its next call.
  An event that cannot happen in the state gives \<open>None\<close>.
\<close>

datatype event = Admit nat nat | Tick real | Deliver nat transport_result | Wake nat nat nat

definition remove_nth :: "nat \<Rightarrow> 'a list \<Rightarrow> 'a list" where
  "remove_nth i xs = take i xs @ drop (Suc i) xs"

definition leave :: "nat \<Rightarrow> task_result \<Rightarrow> tester \<Rightarrow> run_state \<Rightarrow> run_state" where
  "leave i res t' s =
     s\<lparr>stats := t', in_flight := remove_nth i (in_flight s), sem := sem s + 1,
       results := results s @ [res]\<rparr>"

fun step :: "(nat \<Rightarrow> real) \<Rightarrow> event \<Rightarrow> run_state \<Rightarrow> run_state option" where
  "step wait (Admit ua px) s =
     (if 0 < pending s \<and> 0 < sem s
      then Some (s\<lparr>pending := pending s - 1, sem := sem s - 1,
                   in_flight := in_flight s @ [Requesting 1 (now s)],
                   requests := requests s @ [build_request (stats s) ua px]\<rparr>)
      else None)"
| "step wait (Tick d) s = (if 0 \<le> d then Some (s\<lparr>now := now s + d\<rparr>) else None)"
| "step wait (Deliver i r) s =
     (if i < length (in_flight s) then
        (case in_flight s ! i of
           Requesting n start_time \<Rightarrow>
             (case record_result (stats s) start_time (now s) r of
                (ex, t') \<Rightarrow>
                  (case retry_decision wait n ex of
                     Return \<Rightarrow> Some (leave i Returned t' s)
                   | Reraise e \<Rightarrow> Some (leave i (Propagated e) t' s)
                   | GiveUp \<Rightarrow> Some (leave i RetryError t' s)
                   | RetryAfter d \<Rightarrow>
                       Some (s\<lparr>stats := t',
                                in_flight := (in_flight s)[i := Backoff (Suc n) (now s + d)]\<rparr>)))
         | Backoff n wake_time \<Rightarrow> None)
      else None)"
| "step wait (Wake i ua px) s =
     (if i < length (in_flight s) then
        (case in_flight s ! i of
           Requesting n start_time \<Rightarrow> None
         | Backoff n wake_time \<Rightarrow>
             if wake_time \<le> now s
             then Some (s\<lparr>in_flight := (in_flight s)[i := Requesting n (now s)],
                          requests := requests s @ [build_request (stats s) ua px]\<rparr>)
             else None)
      else None)"

fun exec :: "(nat \<Rightarrow> real) \<Rightarrow> event list \<Rightarrow> run_state \<Rightarrow> run_state option" where
  "exec wait [] s = Some s"
| "exec wait (e # es) s = (case step wait e s of None \<Rightarrow> None | Some s' \<Rightarrow> exec wait es s')"

text \<open>
  The state in which the tasks are created: after the optional validation of the
  proxies (whose probes \<open>probe\<close> answers) and the creation of the semaphore, which
  raises \<^verbatim>\<open>ValueError\<close> on a negative value. \<^verbatim>\<open>range\<close> of a negative number is empty.
\<close>

definition run_start ::
  "(nat \<Rightarrow> transport_result) \<Rightarrow> real \<Rightarrow> tester \<Rightarrow> py_error + run_state" where
  "run_start probe t0 t =
     (case (if validate_proxies t \<and> proxies t \<noteq> []
            then (case validate_proxies_async probe t of (valid, t', sent) \<Rightarrow> (t', sent))
            else (t, [])) of
        (t1, sent) \<Rightarrow>
          if concurrency t1 < 0 then Inl ValueError
          else Inr \<lparr>stats = t1, pending = nat (total_requests t1), in_flight = [],
                    sem = nat (concurrency t1), now = t0, probes = sent, requests = [],
                    results = []\<rparr>)"

text \<open>\<^verbatim>\<open>gather\<close> returns when every task has left the semaphore.\<close>

definition all_done :: "run_state \<Rightarrow> bool" where
  "all_done s = (pending s = 0 \<and> in_flight s = [])"

text \<open>
  A run under a schedule of events: the error that \<^verbatim>\<open>run\<close> raises, or the final
  state; \<open>Inr None\<close> when the schedule is not a complete run of the tester.
\<close>

definition run ::
  "(nat \<Rightarrow> real) \<Rightarrow> (nat \<Rightarrow> transport_result) \<Rightarrow> real \<Rightarrow> event list \<Rightarrow> tester
     \<Rightarrow> py_error + run_state option" where
  "run wait probe t0 evs t =
     (case run_start probe t0 t of
        Inl e \<Rightarrow> Inl e
      | Inr s0 \<Rightarrow>
          (case exec wait evs s0 of
             None \<Rightarrow> Inr None
           | Some s \<Rightarrow> if all_done s then Inr (Some s) else Inr None))"

section \<open>The report (\<^verbatim>\<open>StressTester.report\<close>)\<close>

text \<open>
  \<^verbatim>\<open>
  successful = sum(self.stats['status_codes'].values())
  failed = self.total_requests - successful
  \<close>
\<close>

definition successful :: "tester \<Rightarrow> int" where
  "successful t = sum_values (status_codes t)"

definition failed :: "tester \<Rightarrow> int" where
  "failed t = total_requests t - successful t"

record latency_summary =
  avg_latency :: real
  min_latency :: real
  max_latency :: real
  p50 :: real
  p90 :: real
  p99 :: real

record report_lines =
  rp_duration :: real
  rp_total :: int
  rp_successful :: int
  rp_failed :: int
  rp_per_second :: real
  rp_latency :: "latency_summary option"
  rp_status_codes :: "(int \<times> int) list"
  rp_errors :: "(string \<times> int) list"

text \<open>
  The numbers the report logs. The requests per second are \<^verbatim>\<open>total_requests / duration\<close>,
  which raises on a zero duration. The status codes are listed in ascending order, the
  errors by descending count (a stable sort, reversed).
\<close>

definition report :: "tester \<Rightarrow> real \<Rightarrow> py_error + report_lines" where
  "report t duration =
     (if duration = 0 then Inl ZeroDivisionError
      else Inr
        \<lparr>rp_duration = duration,
         rp_total = total_requests t,
         rp_successful = successful t,
         rp_failed = failed t,
         rp_per_second = real_of_int (total_requests t) / duration,
         rp_latency =
           (if latencies t \<noteq> [] then
              Some \<lparr>avg_latency = sum_list (latencies t) / real (length (latencies t)),
                    min_latency = fold min (latencies t) (hd (latencies t)),
                    max_latency = fold max (latencies t) (hd (latencies t)),
                    p50 = percentile (latencies t) 50,
                    p90 = percentile (latencies t) 90,
                    p99 = percentile (latencies t) 99\<rparr>
            else None),
         rp_status_codes = sort_key fst (status_codes t),
         rp_errors = rev (sort_key snd (rev (errors t)))\<rparr>)"

section \<open>The command line, the configuration file and \<^verbatim>\<open>main\<close>\<close>

text \<open>
  The command line as the user wrote it: for every argument of \<^verbatim>\<open>parse_args\<close>, the
  value given or \<open>None\<close>; the flag \<^verbatim>\<open>--validate-proxies\<close> is present or not.
\<close>

record cli =
  cli_url :: "string option"
  cli_threads :: "int option"
  cli_requests :: "int option"
  cli_timeout :: "int option"
  cli_method :: "string option"
  cli_data :: "string option"
  cli_proxies :: "string list option"
  cli_log_file :: "string option"
  cli_config :: "string option"
  cli_validate_proxies :: bool

record args =
  arg_url :: string
  arg_threads :: int
  arg_requests :: int
  arg_timeout :: int
  arg_method :: string
  arg_data :: string
  arg_proxies :: "string list"
  arg_log_file :: string
  arg_config :: "string option"
  arg_validate_proxies :: bool

text \<open>A value given, or the default: an argument's \<^verbatim>\<open>default=\<close>, and \<^verbatim>\<open>dict.get(key, default)\<close>.\<close>

definition get :: "'a option \<Rightarrow> 'a \<Rightarrow> 'a" where
  "get given dflt = (case given of None \<Rightarrow> dflt | Some v \<Rightarrow> v)"

text \<open>
  \<^verbatim>\<open>
  parser.add_argument("url", help="Target URL")
  parser.add_argument("-t", "--threads", type=int, default=100, ...)
  parser.add_argument("-r", "--requests", type=int, default=1000, ...)
  parser.add_argument("--timeout", type=int, default=5, ...)
  parser.add_argument("--method", choices=["GET", "POST"], default="GET", ...)
  parser.add_argument("--data", type=str, default="", ...)
  parser.add_argument("--proxies", type=str, nargs='*', default=[], ...)
  parser.add_argument("--log-file", type=str, default="stress_test.log", ...)
  parser.add_argument("--config", type=str, ...)
  parser.add_argument("--validate-proxies", action='store_true', ...)
  \<close>
  The positional \<^verbatim>\<open>url\<close> is required, and the method is one of the choices: otherwise
  the parser prints the usage and exits (\<open>None\<close>).
\<close>

definition parse_args :: "cli \<Rightarrow> args option" where
  "parse_args c =
     (case cli_url c of
        None \<Rightarrow> None
      | Some u \<Rightarrow>
          if (case cli_method c of None \<Rightarrow> False | Some m \<Rightarrow> m \<notin> set [''GET'', ''POST''])
          then None
          else Some
            \<lparr>arg_url = u,
             arg_threads = get (cli_threads c) 100,
             arg_requests = get (cli_requests c) 1000,
             arg_timeout = get (cli_timeout c) 5,
             arg_method = get (cli_method c) ''GET'',
             arg_data = get (cli_data c) [],
             arg_proxies = get (cli_proxies c) [],
             arg_log_file = get (cli_log_file c) ''stress_test.log'',
             arg_config = cli_config c,
             arg_validate_proxies = cli_validate_proxies c\<rparr>)"

text \<open>
  The JSON object of the configuration file, with the keys that \<^verbatim>\<open>main\<close> reads. A
  key is absent or holds a value of the type the command line gives it.
\<close>

record config =
  cfg_url :: "string option"
  cfg_threads :: "int option"
  cfg_requests :: "int option"
  cfg_timeout :: "int option"
  cfg_method :: "string option"
  cfg_data :: "string option"
  cfg_proxies :: "string list option"
  cfg_log_file :: "string option"
  cfg_validate_proxies :: "bool option"

definition empty_config :: config where
  "empty_config =
     \<lparr>cfg_url = None, cfg_threads = None, cfg_requests = None, cfg_timeout = None,
      cfg_method = None, cfg_data = None, cfg_proxies = None, cfg_log_file = None,
      cfg_validate_proxies = None\<rparr>"

text \<open>
  \<^verbatim>\<open>load_config\<close>: the object in the file, or \<^verbatim>\<open>{}\<close> when the file cannot be read or
  parsed (\<open>files path = None\<close>).
\<close>

definition load_config :: "(string \<Rightarrow> config option) \<Rightarrow> string \<Rightarrow> config" where
  "load_config files config_path =
     (case files config_path of None \<Rightarrow> empty_config | Some config \<Rightarrow> config)"

text \<open>Python's \<^verbatim>\<open>a or b\<close>: \<open>a\<close> when it is truthy, else \<open>b\<close>.\<close>

definition py_or :: "('a \<Rightarrow> bool) \<Rightarrow> 'a \<Rightarrow> 'a \<Rightarrow> 'a" where
  "py_or truthy a b = (if truthy a then a else b)"

definition truthy_int :: "int \<Rightarrow> bool" where
  "truthy_int n = (n \<noteq> 0)"

definition truthy_seq :: "'a list \<Rightarrow> bool" where
  "truthy_seq xs = (xs \<noteq> [])"

definition truthy_bool :: "bool \<Rightarrow> bool" where
  "truthy_bool b = b"

definition truthy_opt_str :: "string option \<Rightarrow> bool" where
  "truthy_opt_str v = (case v of None \<Rightarrow> False | Some s \<Rightarrow> s \<noteq> [])"

record resolved =
  r_url :: "string option"
  r_threads :: int
  r_requests :: int
  r_timeout :: int
  r_method :: string
  r_data :: string
  r_proxies :: "string list"
  r_log_file :: string
  r_validate_proxies :: bool

text \<open>
  \<^verbatim>\<open>
  url = args.url or config.get("url")
  threads = args.threads or config.get("threads", 100)
  requests_per_thread = args.requests or config.get("requests", 1000)
  timeout = args.timeout or config.get("timeout", 5)
  method = args.method or config.get("method", "GET")
  data = args.data or config.get("data", "")
  proxies = args.proxies or config.get("proxies", [])
  log_file = args.log_file or config.get("log_file", "stress_test.log")
  validate_proxies = args.validate_proxies or config.get("validate_proxies", False)
  \<close>
\<close>

definition resolve :: "args \<Rightarrow> config \<Rightarrow> resolved" where
  "resolve a config =
     \<lparr>r_url = py_or truthy_opt_str (Some (arg_url a)) (cfg_url config),
      r_threads = py_or truthy_int (arg_threads a) (get (cfg_threads config) 100),
      r_requests = py_or truthy_int (arg_requests a) (get (cfg_requests config) 1000),
      r_timeout = py_or truthy_int (arg_timeout a) (get (cfg_timeout config) 5),
      r_method = py_or truthy_seq (arg_method a) (get (cfg_method config) ''GET''),
      r_data = py_or truthy_seq (arg_data a) (get (cfg_data config) []),
      r_proxies = py_or truthy_seq (arg_proxies a) (get (cfg_proxies config) []),
      r_log_file = py_or truthy_seq (arg_log_file a) (get (cfg_log_file config) ''stress_test.log''),
      r_validate_proxies =
        py_or truthy_bool (arg_validate_proxies a) (get (cfg_validate_proxies config) False)\<rparr>"

text \<open>
  \<^verbatim>\<open>
  config = {}
  if args.config:
      config = load_config(args.config)
  \<close>
\<close>

definition config_of :: "(string \<Rightarrow> config option) \<Rightarrow> args \<Rightarrow> config" where
  "config_of files a =
     (case arg_config a of
        None \<Rightarrow> empty_config
      | Some config_path \<Rightarrow>
          if config_path \<noteq> [] then load_config files config_path else empty_config)"

text \<open>Lines 183 to 199 of \<^verbatim>\<open>main\<close>: the configuration it resolves, if the parser accepts.\<close>

definition resolve_config :: "cli \<Rightarrow> (string \<Rightarrow> config option) \<Rightarrow> resolved option" where
  "resolve_config c files =
     (case parse_args c of None \<Rightarrow> None | Some a \<Rightarrow> Some (resolve a (config_of files a)))"

text \<open>
  The precedence as the specification words it: the value of the command line when one
  is given, otherwise the value of the configuration file, otherwise the default.
\<close>

definition precedence :: "'a option \<Rightarrow> 'a option \<Rightarrow> 'a \<Rightarrow> 'a" where
  "precedence cli_value file_value dflt =
     (case cli_value of
        Some v \<Rightarrow> v
      | None \<Rightarrow> (case file_value of Some v \<Rightarrow> v | None \<Rightarrow> dflt))"

text \<open>
  \<^verbatim>\<open>
  if not url:
      logging.error("Target URL must be specified ...")
      return
  setup_logging(log_file)
  total_requests = threads * requests_per_thread
  tester = StressTester(url=url, total_requests=total_requests, concurrency=threads, ...)
  start_time = time.time()
  asyncio.run(tester.run())
  end_time = time.time()
  tester.report(end_time - start_time)
  \<close>
  How \<^verbatim>\<open>main\<close> ends: the parser exits; \<^verbatim>\<open>main\<close> returns before it builds a tester;
  the run raises; the schedule given is not a complete run; or the run ends in a state
  and the report is made from it.
\<close>

datatype main_outcome =
    UsageExit
  | Aborted
  | RunRaised py_error
  | Unfinished
  | Reported run_state "py_error + report_lines"

definition main ::
  "cli \<Rightarrow> (string \<Rightarrow> config option) \<Rightarrow> (nat \<Rightarrow> real) \<Rightarrow> (nat \<Rightarrow> transport_result) \<Rightarrow> real
     \<Rightarrow> event list \<Rightarrow> main_outcome" where
  "main c files wait probe t0 evs =
     (case resolve_config c files of
        None \<Rightarrow> UsageExit
      | Some r \<Rightarrow>
          (case r_url r of
             None \<Rightarrow> Aborted
           | Some u \<Rightarrow>
               if u = [] then Aborted
               else
                 (let n = r_threads r * r_requests r;
                      tester = StressTester u n (r_threads r) (r_timeout r)
                                 (r_method r) (r_data r) (r_proxies r) (r_validate_proxies r)
                  in case run wait probe t0 evs tester of
                       Inl e \<Rightarrow> RunRaised e
                     | Inr None \<Rightarrow> Unfinished
                     | Inr (Some s) \<Rightarrow> Reported s (report (stats s) (now s - t0)))))"

text \<open>Whether \<^verbatim>\<open>main\<close> reached \<^verbatim>\<open>tester.run()\<close>, and the requests it had issued.\<close>

fun dispatched :: "main_outcome \<Rightarrow> bool" where
  "dispatched UsageExit = False"
| "dispatched Aborted = False"
| "dispatched (RunRaised e) = True"
| "dispatched Unfinished = True"
| "dispatched (Reported s rep) = True"

text \<open>The number of outcomes recorded in the two histograms of a tester.\<close>

definition recorded :: "tester \<Rightarrow> int" where
  "recorded t = sum_values (status_codes t) + sum_values (errors t)"

section \<open>Counters and the recording of one result\<close>

lemma sum_values_incr: "sum_values (incr k d) = sum_values d + 1"
  by (induction d) (auto simp: sum_values_def)

lemma count_of_incr:
  "count_of (incr k d) k' = (if k' = k then count_of d k + 1 else count_of d k')"
  by (induction d) auto

lemma retry_decision_None: "retry_decision wait n None = Return"
  by (simp add: retry_decision_def)

text \<open>
  Whatever a request ends in, the function records exactly one outcome and no exception
  leaves it: the last handler takes every exception the first two let through.
\<close>

lemma record_result_effect:
  assumes "record_result t a b r = (ex, t')"
  shows "ex = None"
    and "recorded t' = recorded t + 1"
    and "total_requests t' = total_requests t"
    and "concurrency t' = concurrency t"
  using assms
  by (auto simp: record_result_def recorded_def sum_values_incr
      split: transport_result.splits exn.splits)

section \<open>One request under the decorator\<close>

lemma send_request_body_never_raises: "fst (send_request_body e tw) = None"
proof (cases tw)
  case (Pair t w)
  obtain ex t' where "record_result t (clock w) (clock w + elapsed e) (outcome e) = (ex, t')"
    by (cases "record_result t (clock w) (clock w + elapsed e) (outcome e)") auto
  moreover from this have "ex = None" by (rule record_result_effect)
  ultimately show ?thesis using Pair by (simp add: send_request_body_def Let_def)
qed

text \<open>
  Since no exception leaves the function, the decorator always sees a normal return:
  the function is called once, whatever the wait strategy and whatever later calls
  would have ended in.
\<close>

lemma send_request_from_one_call:
  "send_request_from wait env n tw =
     (Returned, fst (snd (send_request_body (env n) tw)), snd (snd (send_request_body (env n) tw)))"
proof -
  obtain ex t' w' where b: "send_request_body (env n) tw = (ex, t', w')"
    by (cases "send_request_body (env n) tw") auto
  with send_request_body_never_raises [of "env n" tw] have "ex = None" by simp
  with b show ?thesis by (subst send_request_from.simps) (simp add: retry_decision_None)
qed

lemma send_request_makes_one_call:
  "\<exists>t' w'. send_request wait env (t, w) = (Returned, t', w')
      \<and> length (issued w') = length (issued w) + 1 \<and> slept w' = slept w
      \<and> recorded t' = recorded t + 1"
proof -
  obtain ex t' where rr:
    "record_result t (clock w) (clock w + elapsed (env 1)) (outcome (env 1)) = (ex, t')"
    by (cases "record_result t (clock w) (clock w + elapsed (env 1)) (outcome (env 1))") auto
  from rr have "recorded t' = recorded t + 1" by (rule record_result_effect)
  with rr show ?thesis
    by (simp add: send_request_def send_request_from_one_call send_request_body_def Let_def)
qed

text \<open>
  Claim C3. When the request of an attempt receives a response, with any status code
  (4xx and 5xx included), the attempt returns normally: the count of that status code
  goes up by one and no other count changes, the latency appended is the clock reading
  at the response minus the reading at the start of the request, and the error
  histogram is unchanged; no backoff sleep is made.
\<close>

theorem response_is_success:
  assumes "outcome (env n) = Response status"
  shows "\<exists>t' w'. send_request_from wait env n (t, w) = (Returned, t', w')
           \<and> status_codes t' = incr status (status_codes t)
           \<and> (\<forall>k. count_of (status_codes t') k
                  = (if k = status then count_of (status_codes t) k + 1
                     else count_of (status_codes t) k))
           \<and> latencies t' = latencies t @ [clock w' - clock w]
           \<and> clock w' - clock w = elapsed (env n)
           \<and> errors t' = errors t
           \<and> slept w' = slept w"
  using assms
  by (simp add: send_request_from_one_call send_request_body_def record_result_def Let_def
      count_of_incr)

theorem response_is_success_witness:
  "outcome ((\<lambda>n. \<lparr>ua_draw = 0, proxy_draw = 0, elapsed = 0.25, outcome = Response 503\<rparr>) 1) = Response 503
   \<and> (\<exists>t' w'. send_request (\<lambda>n. 2)
          (\<lambda>n. \<lparr>ua_draw = 0, proxy_draw = 0, elapsed = 0.25, outcome = Response 503\<rparr>)
          (StressTester ''http://h/'' 1 1 5 ''GET'' [] [] False, \<lparr>clock = 10, issued = [], slept = []\<rparr>)
            = (Returned, t', w')
        \<and> status_codes t' = [(503, 1)] \<and> latencies t' = [0.25] \<and> errors t' = [])"
  using response_is_success [of "\<lambda>n. \<lparr>ua_draw = 0, proxy_draw = 0, elapsed = 0.25, outcome = Response 503\<rparr>"
      1 503 "\<lambda>n. 2" "StressTester ''http://h/'' 1 1 5 ''GET'' [] [] False"
      "\<lparr>clock = 10, issued = [], slept = []\<rparr>"]
  by (auto simp: send_request_def StressTester_def)

text \<open>
  Claim C2. The claim fails on the code. The transport raises a
  \<^verbatim>\<open>ClientError\<close> that is neither a timeout nor a connection-establishment error
  (the server disconnects) on the first call and would respond 200 on the second. The
  function catches the error itself and records it at once: the decorator sees a normal
  return, there is one call only, no backoff sleep, and the second call never
  happens.
\<close>

theorem transport_error_is_not_retried:
  "send_request wait
     (\<lambda>n. \<lparr>ua_draw = 0, proxy_draw = 0, elapsed = 0.25,
            outcome = (if n = 1 then Raises (ClientError ''Server disconnected'') else Response 200)\<rparr>)
     (StressTester ''http://h/'' 1 1 5 ''GET'' [] [] False, \<lparr>clock = 0, issued = [], slept = []\<rparr>)
   = (Returned,
      (StressTester ''http://h/'' 1 1 5 ''GET'' [] [] False)\<lparr>errors := [(''Server disconnected'', 1)]\<rparr>,
      \<lparr>clock = 0.25,
       issued = [build_request (StressTester ''http://h/'' 1 1 5 ''GET'' [] [] False) 0 0],
       slept = []\<rparr>)"
  by (simp add: send_request_def send_request_from_one_call send_request_body_def
      record_result_def StressTester_def Let_def)

section \<open>Invariants of the dispatch\<close>

lemma length_remove_nth: "i < length xs \<Longrightarrow> length (remove_nth i xs) = length xs - 1"
  by (simp add: remove_nth_def)

lemma step_deliver:
  assumes "step wait (Deliver i r) s = Some s'"
  obtains n st t' where "i < length (in_flight s)" and "in_flight s ! i = Requesting n st"
    and "record_result (stats s) st (now s) r = (None, t')" and "s' = leave i Returned t' s"
proof -
  from assms have i: "i < length (in_flight s)" by (simp split: if_splits)
  from assms i obtain n st where k: "in_flight s ! i = Requesting n st"
    by (cases "in_flight s ! i") simp_all
  obtain ex t' where rr: "record_result (stats s) st (now s) r = (ex, t')"
    by (cases "record_result (stats s) st (now s) r") auto
  then have "ex = None" by (rule record_result_effect)
  with assms i k rr have "s' = leave i Returned t' s" by (simp add: retry_decision_None)
  with i k rr \<open>ex = None\<close> that show thesis by blast
qed

lemma step_deliver_response:
  assumes "i < length (in_flight s)" and "in_flight s ! i = Requesting n st"
  shows "step wait (Deliver i (Response status)) s =
     Some (leave i Returned
             ((stats s)\<lparr>latencies := latencies (stats s) @ [now s - st],
                        status_codes := incr status (status_codes (stats s))\<rparr>) s)"
  using assms by (simp add: record_result_def retry_decision_def)

lemma step_deliver_client_error:
  assumes "i < length (in_flight s)" and "in_flight s ! i = Requesting n st"
  shows "step wait (Deliver i (Raises (ClientError d))) s =
     Some (leave i Returned ((stats s)\<lparr>errors := incr d (errors (stats s))\<rparr>) s)"
  using assms by (simp add: record_result_def retry_decision_def)

text \<open>
  Every event keeps: the value of the semaphore plus the number of tasks in flight; the
  number of tasks pending, in flight and finished; and the number of outcomes recorded
  minus the number of tasks finished.
\<close>

lemma step_invariant:
  assumes "step wait e s = Some s'"
  shows "sem s' + length (in_flight s') = sem s + length (in_flight s)"
    and "pending s' + length (in_flight s') + length (results s')
           = pending s + length (in_flight s) + length (results s)"
    and "recorded (stats s') - int (length (results s'))
           = recorded (stats s) - int (length (results s))"
    and "set (results s') \<subseteq> insert Returned (set (results s))"
    and "total_requests (stats s') = total_requests (stats s)"
    and "concurrency (stats s') = concurrency (stats s)"
proof -
  have "sem s' + length (in_flight s') = sem s + length (in_flight s)
      \<and> pending s' + length (in_flight s') + length (results s')
           = pending s + length (in_flight s) + length (results s)
      \<and> recorded (stats s') - int (length (results s'))
           = recorded (stats s) - int (length (results s))
      \<and> set (results s') \<subseteq> insert Returned (set (results s))
      \<and> total_requests (stats s') = total_requests (stats s)
      \<and> concurrency (stats s') = concurrency (stats s)"
  proof (cases e)
    case (Admit ua px)
    with assms show ?thesis by (auto split: if_splits)
  next
    case (Tick d)
    with assms show ?thesis by (auto split: if_splits)
  next
    case (Deliver i r)
    with assms have "step wait (Deliver i r) s = Some s'" by simp
    then obtain n st t' where i: "i < length (in_flight s)"
      and "in_flight s ! i = Requesting n st"
      and rr: "record_result (stats s) st (now s) r = (None, t')"
      and s': "s' = leave i Returned t' s"
      by (rule step_deliver)
    from rr have "recorded t' = recorded (stats s) + 1"
      and "total_requests t' = total_requests (stats s)"
      and "concurrency t' = concurrency (stats s)"
      by (rule record_result_effect)+
    with i s' show ?thesis by (auto simp: leave_def length_remove_nth)
  next
    case (Wake i ua px)
    with assms show ?thesis by (auto split: if_splits task.splits)
  qed
  then show "sem s' + length (in_flight s') = sem s + length (in_flight s)"
    and "pending s' + length (in_flight s') + length (results s')
           = pending s + length (in_flight s) + length (results s)"
    and "recorded (stats s') - int (length (results s'))
           = recorded (stats s) - int (length (results s))"
    and "set (results s') \<subseteq> insert Returned (set (results s))"
    and "total_requests (stats s') = total_requests (stats s)"
    and "concurrency (stats s') = concurrency (stats s)"
    by simp_all
qed

lemma exec_invariant:
  assumes "exec wait evs s = Some s'"
  shows "sem s' + length (in_flight s') = sem s + length (in_flight s)"
    and "pending s' + length (in_flight s') + length (results s')
           = pending s + length (in_flight s) + length (results s)"
    and "recorded (stats s') - int (length (results s'))
           = recorded (stats s) - int (length (results s))"
    and "set (results s') \<subseteq> insert Returned (set (results s))"
    and "total_requests (stats s') = total_requests (stats s)"
    and "concurrency (stats s') = concurrency (stats s)"
  using assms
proof (induction evs arbitrary: s)
  case Nil
  {
    case 1 then show ?case by simp
  next
    case 2 then show ?case by simp
  next
    case 3 then show ?case by simp
  next
    case 4 then show ?case by auto
  next
    case 5 then show ?case by simp
  next
    case 6 then show ?case by simp
  }
next
  case (Cons e evs)
  {
    case 1
    then obtain s1 where a: "step wait e s = Some s1" and b: "exec wait evs s1 = Some s'"
      by (auto split: option.splits)
    show ?case using Cons.IH(1) [OF b] step_invariant(1) [OF a] by simp
  next
    case 2
    then obtain s1 where a: "step wait e s = Some s1" and b: "exec wait evs s1 = Some s'"
      by (auto split: option.splits)
    show ?case using Cons.IH(2) [OF b] step_invariant(2) [OF a] by simp
  next
    case 3
    then obtain s1 where a: "step wait e s = Some s1" and b: "exec wait evs s1 = Some s'"
      by (auto split: option.splits)
    show ?case using Cons.IH(3) [OF b] step_invariant(3) [OF a] by simp
  next
    case 4
    then obtain s1 where a: "step wait e s = Some s1" and b: "exec wait evs s1 = Some s'"
      by (auto split: option.splits)
    show ?case using Cons.IH(4) [OF b] step_invariant(4) [OF a] by auto
  next
    case 5
    then obtain s1 where a: "step wait e s = Some s1" and b: "exec wait evs s1 = Some s'"
      by (auto split: option.splits)
    show ?case using Cons.IH(5) [OF b] step_invariant(5) [OF a] by simp
  next
    case 6
    then obtain s1 where a: "step wait e s = Some s1" and b: "exec wait evs s1 = Some s'"
      by (auto split: option.splits)
    show ?case using Cons.IH(6) [OF b] step_invariant(6) [OF a] by simp
  }
qed

lemma validate_proxies_async_tester:
  "validate_proxies_async net t = (valid, t', sent) \<Longrightarrow> t' = t\<lparr>proxies := valid\<rparr>"
  by (auto simp: validate_proxies_async_def Let_def split: prod.splits)

lemma run_start_state:
  assumes "run_start probe t0 t = Inr s0"
  shows "pending s0 = nat (total_requests t)"
    and "in_flight s0 = []"
    and "results s0 = []"
    and "int (sem s0) = concurrency t"
    and "recorded (stats s0) = recorded t"
    and "total_requests (stats s0) = total_requests t"
    and "concurrency (stats s0) = concurrency t"
  using assms
  by (auto simp: run_start_def validate_proxies_async_def recorded_def Let_def
      split: if_splits prod.splits)

lemma run_start_succeeds:
  assumes "0 \<le> concurrency t"
  shows "\<exists>s0. run_start probe t0 t = Inr s0"
proof (cases "validate_proxies t \<and> proxies t \<noteq> []")
  case True
  obtain valid t' sent where v: "validate_proxies_async probe t = (valid, t', sent)"
    by (rule prod_cases3)
  then have "concurrency t' = concurrency t"
    by (simp add: validate_proxies_async_tester [OF v])
  with True v assms show ?thesis by (simp add: run_start_def)
next
  case False
  with assms show ?thesis by (auto simp: run_start_def)
qed

text \<open>
  Runs do complete: with a positive concurrency, admitting and answering the tasks one
  after the other is a complete schedule, so the theorems about final states are about
  states that exist.
\<close>

lemma exec_append:
  "exec wait (xs @ ys) s = (case exec wait xs s of None \<Rightarrow> None | Some s' \<Rightarrow> exec wait ys s')"
  by (induction xs arbitrary: s) (auto split: option.splits)

lemma admit_then_deliver:
  assumes "in_flight s = []" and "0 < sem s" and "pending s = Suc k"
  shows "\<exists>s'. exec wait [Admit 0 0, Deliver 0 (Response 200)] s = Some s'
           \<and> in_flight s' = [] \<and> sem s' = sem s \<and> pending s' = k"
  using assms
  by (simp add: record_result_def retry_decision_def leave_def remove_nth_def)

lemma drain_pending:
  assumes "in_flight s = []" and "0 < sem s" and "pending s = k"
  shows "\<exists>s'. exec wait (concat (replicate k [Admit 0 0, Deliver 0 (Response 200)])) s = Some s'
           \<and> all_done s'"
  using assms
proof (induction k arbitrary: s)
  case 0
  then show ?case by (simp add: all_done_def)
next
  case (Suc k)
  from admit_then_deliver [OF Suc.prems] obtain s1
    where a: "exec wait [Admit 0 0, Deliver 0 (Response 200)] s = Some s1"
      and s1: "in_flight s1 = []" "sem s1 = sem s" "pending s1 = k"
    by blast
  from Suc.IH [of s1] s1 Suc.prems(2) obtain s'
    where "exec wait (concat (replicate k [Admit 0 0, Deliver 0 (Response 200)])) s1 = Some s'"
      and "all_done s'"
    by auto
  with a show ?case
    using exec_append [of wait "[Admit 0 0, Deliver 0 (Response 200)]"
        "concat (replicate k [Admit 0 0, Deliver 0 (Response 200)])" s]
    by simp
qed

lemma complete_run_exists:
  assumes "0 < concurrency t"
  shows "\<exists>evs s. run wait probe t0 evs t = Inr (Some s)"
proof -
  from assms have "0 \<le> concurrency t" by simp
  then obtain s0 where start: "run_start probe t0 t = Inr s0"
    using run_start_succeeds by blast
  from run_start_state [OF start] assms have "in_flight s0 = []" and "0 < sem s0" by simp_all
  from drain_pending [OF this refl] obtain evs s where "exec wait evs s0 = Some s" and "all_done s"
    by blast
  with start have "run wait probe t0 evs t = Inr (Some s)" by (simp add: run_def)
  then show ?thesis by blast
qed

text \<open>
  Claim C1. For every complete run of a freshly built tester whose total number of
  requests is not negative, under every schedule and whatever the requests end in, the
  status-code counts plus the error counts of the final state add up to
  \<open>total_requests\<close>; every task returned normally, after recording one outcome.
\<close>

theorem every_attempt_recorded_once:
  assumes "run wait probe t0 evs (StressTester u n c tmo m d ps v) = Inr (Some s)"
    and "0 \<le> n"
  shows "sum_values (status_codes (stats s)) + sum_values (errors (stats s)) = n
         \<and> int (length (results s)) = n \<and> set (results s) \<subseteq> {Returned}"
proof -
  let ?t = "StressTester u n c tmo m d ps v"
  from assms(1) obtain s0 where start: "run_start probe t0 ?t = Inr s0"
    and ex: "exec wait evs s0 = Some s" and fin: "all_done s"
    by (auto simp: run_def split: sum.splits option.splits if_splits)
  have fresh: "recorded ?t = 0" and total: "total_requests ?t = n"
    by (simp_all add: recorded_def StressTester_def sum_values_def)
  from start have s0: "pending s0 = nat n" "in_flight s0 = []" "results s0 = []"
    "recorded (stats s0) = 0"
    using run_start_state [OF start] fresh total by simp_all
  from ex have "pending s + length (in_flight s) + length (results s)
      = pending s0 + length (in_flight s0) + length (results s0)"
    by (rule exec_invariant)
  with fin s0 have len: "length (results s) = nat n" by (simp add: all_done_def)
  from ex have "recorded (stats s) - int (length (results s))
      = recorded (stats s0) - int (length (results s0))"
    by (rule exec_invariant)
  with s0 len assms(2) have "recorded (stats s) = n" by simp
  moreover from ex have "set (results s) \<subseteq> insert Returned (set (results s0))"
    by (rule exec_invariant)
  ultimately show ?thesis using s0 len assms(2) by (simp add: recorded_def)
qed

theorem every_attempt_recorded_once_witness:
  "\<exists>s. run (\<lambda>n. 2) (\<lambda>k. Raises TimeoutError) 0
          [Admit 0 0, Tick 0.1, Deliver 0 (Response 200), Admit 1 0, Deliver 0 (Raises TimeoutError)]
          (StressTester ''http://h/'' 2 1 5 ''GET'' [] [] False) = Inr (Some s)
       \<and> sum_values (status_codes (stats s)) + sum_values (errors (stats s)) = 2
       \<and> status_codes (stats s) = [(200, 1)] \<and> errors (stats s) = [(''Timeout'', 1)]"
proof -
  obtain s where r: "run (\<lambda>n. 2) (\<lambda>k. Raises TimeoutError) 0
          [Admit 0 0, Tick 0.1, Deliver 0 (Response 200), Admit 1 0, Deliver 0 (Raises TimeoutError)]
          (StressTester ''http://h/'' 2 1 5 ''GET'' [] [] False) = Inr (Some s)"
    and st: "status_codes (stats s) = [(200, 1)]" "errors (stats s) = [(''Timeout'', 1)]"
    by (simp add: run_def run_start_def StressTester_def all_done_def leave_def remove_nth_def
        record_result_def retry_decision_def)
  from every_attempt_recorded_once [OF r] st r show ?thesis by simp
qed

text \<open>
  Claim C4. All the tasks are created at once (they are pending in the first state, none
  in flight), and in every state that a run reaches, after any sequence of events, the
  number of tasks inside the semaphore is at most \<open>concurrency\<close>.
\<close>

theorem in_flight_bounded:
  assumes "run_start probe t0 t = Inr s0" and "exec wait evs s0 = Some s"
  shows "int (length (in_flight s)) \<le> concurrency t
         \<and> pending s0 = nat (total_requests t) \<and> in_flight s0 = []"
proof -
  from assms(2) have "sem s + length (in_flight s) = sem s0 + length (in_flight s0)"
    by (rule exec_invariant)
  moreover from assms(1) have "in_flight s0 = []" and "int (sem s0) = concurrency t"
    and "pending s0 = nat (total_requests t)"
    by (rule run_start_state)+
  ultimately show ?thesis by auto
qed

theorem in_flight_bounded_witness:
  "\<exists>s0 s. run_start (\<lambda>k. Raises TimeoutError) 0
              (StressTester ''http://h/'' 2 1 5 ''GET'' [] [] False) = Inr s0
       \<and> exec (\<lambda>n. 2) [Admit 0 0, Tick 0.1] s0 = Some s
       \<and> length (in_flight s) = 1
       \<and> exec (\<lambda>n. 2) [Admit 0 0, Tick 0.1, Admit 1 1] s0 = None
       \<and> int (length (in_flight s)) \<le> 1"
proof -
  let ?t = "StressTester ''http://h/'' 2 1 5 ''GET'' [] [] False"
  obtain s0 where a: "run_start (\<lambda>k. Raises TimeoutError) 0 ?t = Inr s0"
    and s0: "pending s0 = 2" "sem s0 = 1" "in_flight s0 = []"
    by (simp add: run_start_def StressTester_def)
  obtain s where b: "exec (\<lambda>n. 2) [Admit 0 0, Tick 0.1] s0 = Some s"
    and s: "length (in_flight s) = 1" "sem s = 0"
    using s0 by simp
  from b s have c: "exec (\<lambda>n. 2) [Admit 0 0, Tick 0.1, Admit 1 1] s0 = None"
    using s0 by simp
  have "concurrency ?t = 1" by (simp add: StressTester_def)
  with in_flight_bounded [OF a b] a b c s show ?thesis by auto
qed

section \<open>Percentile theorems\<close>

lemma percentile_index_less:
  assumes "0 < n" and "p < 100"
  shows "n * p div 100 < (n::nat)"
proof -
  from assms have "n * p < n * 100" by simp
  then show ?thesis by (simp add: less_mult_imp_div_less mult.commute)
qed

lemma percentile_index_mono:
  assumes "p \<le> q"
  shows "n * p div 100 \<le> n * q div (100::nat)"
  using assms by (simp add: div_le_mono)

lemma percentile_nth:
  assumes "ls \<noteq> []" and "p < 100"
  shows "percentile ls p = sort ls ! (length ls * p div 100)"
proof -
  from assms(1) have "0 < length ls" by simp
  then have "length ls * p div 100 < length ls"
    using assms(2) by (rule percentile_index_less)
  with assms(1) show ?thesis by (simp add: percentile_def Let_def)
qed

lemma percentile_mono:
  assumes "ls \<noteq> []" and "p \<le> q" and "q < 100"
  shows "percentile ls p \<le> percentile ls q"
proof -
  let ?n = "length ls"
  from assms(1) have pos: "0 < ?n" by simp
  from assms(2,3) have "p < 100" by simp
  have "?n * q div 100 < ?n" using pos assms(3) by (rule percentile_index_less)
  then have "sort ls ! (?n * p div 100) \<le> sort ls ! (?n * q div 100)"
    using percentile_index_mono [OF assms(2), of ?n]
    by (intro sorted_nth_mono) simp_all
  then show ?thesis
    using assms(1) \<open>p < 100\<close> assms(3) by (simp add: percentile_nth)
qed

text \<open>
  Claim C5. The percentile of the recorded latencies is the nearest-rank value: the
  latencies sorted ascending, read at index \<open>floor (count * p / 100)\<close> clamped to
  \<open>count - 1\<close>, and 0 when no latency is recorded. The equation holds for every
  integer percentile, in particular for 50, 90 and 99.
\<close>

theorem percentile_nearest_rank:
  "percentile ls p = percentile_spec ls p"
proof (cases "ls = []")
  case True
  then show ?thesis by (simp add: percentile_def percentile_spec_def)
next
  case False
  let ?s = "sort ls"
  let ?i = "length ls * p div 100"
  from False have ne: "?s \<noteq> []" by (metis length_sort length_0_conv)
  show ?thesis
  proof (cases "?i < length ls")
    case True
    then have "min ?i (length ls - 1) = ?i" by simp
    with False True show ?thesis by (simp add: percentile_def percentile_spec_def Let_def)
  next
    case above: False
    then have "min ?i (length ls - 1) = length ?s - 1" by simp
    moreover have "last ?s = ?s ! (length ?s - 1)" using ne by (rule last_conv_nth)
    ultimately show ?thesis
      using False above by (simp add: percentile_def percentile_spec_def Let_def)
  qed
qed

theorem percentile_nearest_rank_witness:
  "percentile [0.3, 0.1, 0.2, 0.4] 50 = 0.3
   \<and> percentile [0.3, 0.1, 0.2, 0.4] 90 = 0.4
   \<and> percentile [0.3, 0.1, 0.2, 0.4] 99 = 0.4
   \<and> percentile [] 50 = 0"
  using percentile_nearest_rank [of "[0.3, 0.1, 0.2, 0.4]" 50]
    percentile_nearest_rank [of "[0.3, 0.1, 0.2, 0.4]" 90]
    percentile_nearest_rank [of "[0.3, 0.1, 0.2, 0.4]" 99]
    percentile_nearest_rank [of "[]" 50]
  by (simp add: percentile_spec_def)

text \<open>
  Claim C6. On a non-empty latency sequence the reported percentiles are monotonic,
  \<open>p50 \<le> p90 \<le> p99\<close>; on the empty sequence all three are 0.
\<close>

theorem percentiles_monotonic:
  "(ls \<noteq> [] \<longrightarrow>
      percentile ls 50 \<le> percentile ls 90
      \<and> percentile ls 90 \<le> percentile ls 99)
   \<and> percentile [] 50 = 0 \<and> percentile [] 90 = 0 \<and> percentile [] 99 = 0"
proof -
  have "percentile ls 50 \<le> percentile ls 90" if "ls \<noteq> []"
    using that by (intro percentile_mono) simp_all
  moreover have "percentile ls 90 \<le> percentile ls 99" if "ls \<noteq> []"
    using that by (intro percentile_mono) simp_all
  moreover have "percentile [] p = 0" for p by (simp add: percentile_def)
  ultimately show ?thesis by simp
qed

theorem percentiles_monotonic_witness:
  "[0.3, 0.1, 0.2, 0.4] \<noteq> ([] :: real list)
   \<and> percentile [0.3, 0.1, 0.2, 0.4] 50 \<le> percentile [0.3, 0.1, 0.2, 0.4] 90
   \<and> percentile [0.3, 0.1, 0.2, 0.4] 90 \<le> percentile [0.3, 0.1, 0.2, 0.4] 99"
  using percentiles_monotonic [of "[0.3, 0.1, 0.2, 0.4]"] by simp

section \<open>Proxy validation theorems\<close>

lemma validate_proxy_eq:
  "validate_proxy net proxy sent = (net (length sent) = Response 200, sent @ [probe_request proxy])"
  by (auto simp: validate_proxy_def session_request_def split: transport_result.splits)

lemma gather_validate_eq:
  "gather_validate net ps sent =
     (map (\<lambda>k. net (length sent + k) = Response 200) [0..<length ps], sent @ map probe_request ps)"
proof (induction ps arbitrary: sent)
  case Nil
  then show ?case by simp
next
  case (Cons p ps)
  have "[0..<length (p # ps)] = 0 # map Suc [0..<length ps]"
    by (simp add: upt_conv_Cons map_Suc_upt del: upt_Suc)
  then show ?case by (simp add: Cons.IH validate_proxy_eq comp_def del: upt_Suc)
qed

lemma filter_zip_map:
  "map fst (filter snd (zip xs (map f ys))) = map fst (filter (\<lambda>(x, y). f y) (zip xs ys))"
proof (induction xs arbitrary: ys)
  case Nil
  then show ?case by simp
next
  case (Cons x xs)
  then show ?case by (cases ys) simp_all
qed

text \<open>
  Claim C7. Validation issues exactly one probe per candidate, a GET through that proxy
  with a timeout of 10 seconds, and never a second one; a candidate is valid exactly
  when its probe ends in a response of status 200 (any other status and any exception
  make it invalid); and \<^verbatim>\<open>validate_proxies_async\<close> returns, and stores in the
  tester, exactly the candidates whose probe returned 200, in their order.
\<close>

theorem validate_keeps_exactly_the_200s:
  "validate_proxies_async net t =
     (map fst (filter (\<lambda>(proxy, k). net k = Response 200) (zip (proxies t) [0..<length (proxies t)])),
      t\<lparr>proxies :=
          map fst (filter (\<lambda>(proxy, k). net k = Response 200) (zip (proxies t) [0..<length (proxies t)]))\<rparr>,
      map probe_request (proxies t))
   \<and> validate_proxy net proxy sent = (net (length sent) = Response 200, sent @ [probe_request proxy])
   \<and> rq_method (probe_request proxy) = ''GET'' \<and> rq_timeout (probe_request proxy) = 10
   \<and> rq_proxy (probe_request proxy) = Some proxy"
  by (simp add: validate_proxies_async_def gather_validate_eq filter_zip_map validate_proxy_eq
      probe_request_def Let_def)

theorem validate_keeps_exactly_the_200s_witness:
  "validate_proxies_async (\<lambda>k. if k = 0 then Response 200 else Raises TimeoutError)
     (StressTester ''http://h/'' 2 1 5 ''GET'' [] [''http://ok:8080'', ''http://bad:8080''] True)
   = ([''http://ok:8080''],
      StressTester ''http://h/'' 2 1 5 ''GET'' [] [''http://ok:8080''] True,
      [probe_request ''http://ok:8080'', probe_request ''http://bad:8080''])"
  using validate_keeps_exactly_the_200s
    [of "\<lambda>k. if k = 0 then Response 200 else Raises TimeoutError"
        "StressTester ''http://h/'' 2 1 5 ''GET'' [] [''http://ok:8080'', ''http://bad:8080''] True"]
  by (simp add: StressTester_def upt_conv_Cons)

section \<open>Configuration theorems\<close>

lemma parse_args_fields:
  assumes "parse_args c = Some a"
  shows "cli_url c = Some (arg_url a)"
    and "arg_threads a = get (cli_threads c) 100"
    and "arg_requests a = get (cli_requests c) 1000"
    and "arg_timeout a = get (cli_timeout c) 5"
    and "arg_method a = get (cli_method c) ''GET''"
    and "arg_log_file a = get (cli_log_file c) ''stress_test.log''"
    and "arg_config a = cli_config c"
proof -
  from assms obtain u where u: "cli_url c = Some u"
    by (cases "cli_url c") (simp_all add: parse_args_def)
  with assms have
    "a = \<lparr>arg_url = u,
          arg_threads = get (cli_threads c) 100,
          arg_requests = get (cli_requests c) 1000,
          arg_timeout = get (cli_timeout c) 5,
          arg_method = get (cli_method c) ''GET'',
          arg_data = get (cli_data c) [],
          arg_proxies = get (cli_proxies c) [],
          arg_log_file = get (cli_log_file c) ''stress_test.log'',
          arg_config = cli_config c,
          arg_validate_proxies = cli_validate_proxies c\<rparr>"
    by (simp add: parse_args_def split: if_splits)
  with u show "cli_url c = Some (arg_url a)"
    and "arg_threads a = get (cli_threads c) 100"
    and "arg_requests a = get (cli_requests c) 1000"
    and "arg_timeout a = get (cli_timeout c) 5"
    and "arg_method a = get (cli_method c) ''GET''"
    and "arg_log_file a = get (cli_log_file c) ''stress_test.log''"
    and "arg_config a = cli_config c"
    by simp_all
qed

text \<open>
  For five keys the parser's default is truthy, so the value of the configuration
  file is never read when the command line gives none.
\<close>

lemma cli_defaults_shadow_config:
  assumes "parse_args c = Some a"
  shows "cli_threads c = None \<Longrightarrow> r_threads (resolve a config) = 100"
    and "cli_requests c = None \<Longrightarrow> r_requests (resolve a config) = 1000"
    and "cli_timeout c = None \<Longrightarrow> r_timeout (resolve a config) = 5"
    and "cli_method c = None \<Longrightarrow> r_method (resolve a config) = ''GET''"
    and "cli_log_file c = None \<Longrightarrow> r_log_file (resolve a config) = ''stress_test.log''"
  using parse_args_fields [OF assms]
  by (simp_all add: resolve_def get_def py_or_def truthy_int_def truthy_seq_def)

text \<open>
  Claim C8. The claim fails on the code. The command line gives the URL and a
  configuration file, and no \<^verbatim>\<open>--threads\<close>; the file sets \<^verbatim>\<open>threads\<close> to 50.
  \<^verbatim>\<open>main\<close> resolves 100 threads, the parser's default, where the precedence of
  the specification gives the 50 of the file.
\<close>

theorem config_file_threads_ignored:
  "map_option r_threads
     (resolve_config
        \<lparr>cli_url = Some ''http://h/'', cli_threads = None, cli_requests = None,
         cli_timeout = None, cli_method = None, cli_data = None, cli_proxies = None,
         cli_log_file = None, cli_config = Some ''c.json'', cli_validate_proxies = False\<rparr>
        (\<lambda>path. if path = ''c.json'' then Some (empty_config\<lparr>cfg_threads := Some 50\<rparr>) else None))
     = Some 100
   \<and> precedence (None :: int option) (cfg_threads (empty_config\<lparr>cfg_threads := Some 50\<rparr>)) 100 = 50"
  by (simp add: resolve_config_def parse_args_def config_of_def load_config_def resolve_def
      get_def py_or_def truthy_int_def truthy_seq_def truthy_opt_str_def truthy_bool_def
      empty_config_def precedence_def)

text \<open>
  Claim C9. When the command line gives no URL (none, which the parser rejects, or
  the empty string) and the configuration file, if any, has none, \<^verbatim>\<open>main\<close> ends
  before it builds a tester: the parser exits, or else \<^verbatim>\<open>main\<close> returns at its
  check of the URL (\<open>Aborted\<close>); \<^verbatim>\<open>tester.run()\<close> is never reached, whatever the
  schedule and the transport.
\<close>

theorem missing_url_aborts:
  assumes "cli_url c = None \<or> cli_url c = Some []"
    and "\<forall>path. cli_config c = Some path \<longrightarrow> cfg_url (load_config files path) = None"
  shows "main c files wait probe t0 evs = (if parse_args c = None then UsageExit else Aborted)
         \<and> \<not> dispatched (main c files wait probe t0 evs)"
proof (cases "parse_args c")
  case None
  then show ?thesis by (simp add: main_def resolve_config_def)
next
  case (Some a)
  with assms(1) have a: "arg_url a = []" "arg_config a = cli_config c"
    using parse_args_fields(1,7) [of c a] by auto
  with assms(2) have "cfg_url (config_of files a) = None"
    by (auto simp: config_of_def empty_config_def split: option.splits)
  with a have "r_url (resolve a (config_of files a)) = None"
    by (simp add: resolve_def py_or_def truthy_opt_str_def)
  with Some show ?thesis by (simp add: main_def resolve_config_def)
qed

theorem missing_url_aborts_witness:
  "main \<lparr>cli_url = Some [], cli_threads = Some 4, cli_requests = None,
         cli_timeout = None, cli_method = None, cli_data = None, cli_proxies = None,
         cli_log_file = None, cli_config = Some ''c.json'', cli_validate_proxies = False\<rparr>
      (\<lambda>path. if path = ''c.json'' then Some (empty_config\<lparr>cfg_threads := Some 50\<rparr>) else None)
      (\<lambda>n. 2) (\<lambda>k. Response 200) 0 [Admit 0 0, Deliver 0 (Response 200)] = Aborted"
  using missing_url_aborts [of "\<lparr>cli_url = Some [], cli_threads = Some 4, cli_requests = None,
         cli_timeout = None, cli_method = None, cli_data = None, cli_proxies = None,
         cli_log_file = None, cli_config = Some ''c.json'', cli_validate_proxies = False\<rparr>"
      "\<lambda>path. if path = ''c.json'' then Some (empty_config\<lparr>cfg_threads := Some 50\<rparr>) else None"
      "\<lambda>n. 2" "\<lambda>k. Response 200" 0 "[Admit 0 0, Deliver 0 (Response 200)]"]
  by (simp add: parse_args_def load_config_def empty_config_def)

section \<open>Report theorems\<close>

text \<open>
  Claim C10. The report derives the failed count by subtraction, \<open>total_requests\<close>
  minus the sum of the status-code counts, without reading the error histogram; so
  successful plus failed is \<open>total_requests\<close> for every tester state, also one whose
  error counts do not add up to the failed count.
\<close>

theorem failed_is_total_minus_successful:
  "failed t = total_requests t - sum_values (status_codes t)
   \<and> successful t + failed t = total_requests t
   \<and> (\<forall>r. report t duration = Inr r \<longrightarrow>
          rp_total r = total_requests t
          \<and> rp_successful r = sum_values (status_codes t)
          \<and> rp_failed r = rp_total r - rp_successful r
          \<and> rp_successful r + rp_failed r = rp_total r)"
  by (auto simp: failed_def successful_def report_def split: if_splits)

theorem failed_is_total_minus_successful_witness:
  "\<exists>s r. main \<lparr>cli_url = Some ''http://h/'', cli_threads = Some 2, cli_requests = Some (- 3),
               cli_timeout = None, cli_method = None, cli_data = None, cli_proxies = None,
               cli_log_file = None, cli_config = None, cli_validate_proxies = False\<rparr>
            (\<lambda>path. None) (\<lambda>n. 2) (\<lambda>k. Response 200) 0 [Tick 1] = Reported s (Inr r)
       \<and> report (stats s) 1 = Inr r
       \<and> rp_total r = - 6 \<and> rp_successful r = 0 \<and> rp_failed r = - 6
       \<and> rp_successful r + rp_failed r = rp_total r
       \<and> sum_values (errors (stats s)) = 0"
proof -
  let ?c = "\<lparr>cli_url = Some ''http://h/'', cli_threads = Some 2, cli_requests = Some (- 3),
               cli_timeout = None, cli_method = None, cli_data = None, cli_proxies = None,
               cli_log_file = None, cli_config = None, cli_validate_proxies = False\<rparr>"
  obtain s where m: "main ?c (\<lambda>path. None) (\<lambda>n. 2) (\<lambda>k. Response 200) 0 [Tick 1]
        = Reported s (report (stats s) 1)"
    and s: "total_requests (stats s) = - 6" "status_codes (stats s) = []" "errors (stats s) = []"
    by (simp add: main_def resolve_config_def parse_args_def config_of_def resolve_def
        get_def py_or_def truthy_int_def truthy_seq_def truthy_opt_str_def truthy_bool_def
        empty_config_def run_def run_start_def StressTester_def all_done_def Let_def)
  obtain r where r: "report (stats s) 1 = Inr r" by (simp add: report_def)
  from failed_is_total_minus_successful [of "stats s" 1] r s m show ?thesis
    by (simp add: sum_values_def)
qed

end
